theory Spec2Isabelle
  imports Main "HOL-Library.Word"
begin

section \<open>MazoMate: segmentation of generated text and export of the question/answer pairs\<close>

text \<open>
  The development embeds the three pieces of \<^verbatim>\<open>app.py\<close> that carry logic: the loop of
  \<^verbatim>\<open>main\<close> that cuts the generated text into question/answer dictionaries, and the two
  exporters \<^verbatim>\<open>export_to_excel\<close> and \<^verbatim>\<open>export_to_word\<close>.
\<close>

subsection \<open>Python values\<close>

text \<open>
  A Python \<^verbatim>\<open>str\<close> is a sequence of Unicode code points, so a string is a list of
  naturals; \<open>str\<close> injects the literals of the source text. A \<^verbatim>\<open>dict\<close> with string keys
  and string values keeps its insertion order and is an association list. An exception is a
  value. The exceptions are those of Python (\<open>IndexError\<close>, \<open>KeyError\<close>,
  \<open>UnicodeEncodeError\<close>), of pandas (the \<^verbatim>\<open>ValueError\<close> of a sheet that is too large),
  of openpyxl (\<open>IllegalCharacterError\<close>), of python-docx (the \<^verbatim>\<open>ValueError\<close> of a
  heading level out of range), of lxml (the \<^verbatim>\<open>ValueError\<close> of a text that XML cannot
  hold), and whatever the encoders of the two file formats raise (\<open>EncoderError\<close>). What
  \<^verbatim>\<open>f"{e}"\<close> prints for an exception is decided by its class, in Python and in the
  libraries: the exporters take it as the parameter \<open>exn_text\<close>.
\<close>

type_synonym pystr = "nat list"

definition str :: "string \<Rightarrow> pystr" where
  "str s = map of_char s"

type_synonym pydict = "(pystr \<times> pystr) list"

type_synonym bytes = "8 word list"

datatype exn =
    IndexError
  | KeyError pystr
  | UnicodeEncodeError pystr
  | SheetTooLarge nat nat
  | IllegalCharacterError pystr
  | HeadingLevelError nat
  | XMLValueError pystr
  | EncoderError pystr

text \<open>\<^verbatim>\<open>xs[i]\<close> for a non-negative index, and \<^verbatim>\<open>d[k]\<close>.\<close>

definition getitem :: "'a list \<Rightarrow> nat \<Rightarrow> exn + 'a" where
  "getitem xs i = (if i < length xs then Inr (xs ! i) else Inl IndexError)"

definition dict_getitem :: "pydict \<Rightarrow> pystr \<Rightarrow> exn + pystr" where
  "dict_getitem d k = (case map_of d k of None \<Rightarrow> Inl (KeyError k) | Some v \<Rightarrow> Inr v)"

text \<open>
  \<^verbatim>\<open>s.strip()\<close> removes the leading and trailing characters for which
  \<^verbatim>\<open>str.isspace\<close> holds: the code points below.
\<close>

definition isspace :: "nat \<Rightarrow> bool" where
  "isspace c \<longleftrightarrow>
     (0x09 \<le> c \<and> c \<le> 0x0D) \<or> (0x1C \<le> c \<and> c \<le> 0x20) \<or> c = 0x85 \<or> c = 0xA0 \<or>
     c = 0x1680 \<or> (0x2000 \<le> c \<and> c \<le> 0x200A) \<or> c = 0x2028 \<or> c = 0x2029 \<or>
     c = 0x202F \<or> c = 0x205F \<or> c = 0x3000"

definition strip :: "pystr \<Rightarrow> pystr" where
  "strip s = rev (dropWhile isspace (rev (dropWhile isspace s)))"

text \<open>
  \<^verbatim>\<open>s.split('\n')\<close>: the pieces between the line feeds, empty pieces kept, so that the
  empty string gives one empty piece.
\<close>

fun split_nl :: "pystr \<Rightarrow> pystr list" where
  "split_nl [] = [[]]"
| "split_nl (c # cs) =
     (if c = 0x0A then [] # split_nl cs
      else (case split_nl cs of [] \<Rightarrow> [[c]] | l # ls \<Rightarrow> (c # l) # ls))"

text \<open>\<^verbatim>\<open>range(i, n, 2)\<close> as the list of indices it runs through.\<close>

function range2 :: "nat \<Rightarrow> nat \<Rightarrow> nat list" where
  "range2 i n = (if i < n then i # range2 (i + 2) n else [])"
  by pat_completeness auto
termination
  by (relation "measure (\<lambda>(i, n). n - i)") auto

declare range2.simps [simp del]

subsection \<open>The segmenter: lines 204 to 209 of \<^verbatim>\<open>main\<close>\<close>

text \<open>
  \<^verbatim>\<open>
  qa_pairs = []
  lines = generated_content.split('\n')
  for i in range(0, len(lines), 2):
      question = lines[i].strip() if i < len(lines) else ""
      answer = lines[i+1].strip() if (i + 1) < len(lines) else ""
      qa_pairs.append({"Question": question, "Answer": answer})
  \<close>
  Each read of \<^verbatim>\<open>lines\<close> goes through \<open>getitem\<close>, so that a read out of range would
  be the result \<open>Inl IndexError\<close> of the loop.
\<close>

definition qa_dict :: "pystr \<Rightarrow> pystr \<Rightarrow> pydict" where
  "qa_dict question answer = [(str ''Question'', question), (str ''Answer'', answer)]"

definition stripped_line :: "pystr list \<Rightarrow> nat \<Rightarrow> exn + pystr" where
  "stripped_line lines i =
     (if i < length lines
      then (case getitem lines i of Inl e \<Rightarrow> Inl e | Inr l \<Rightarrow> Inr (strip l))
      else Inr [])"

definition loop_body :: "pystr list \<Rightarrow> nat \<Rightarrow> pydict list \<Rightarrow> exn + pydict list" where
  "loop_body lines i qa_pairs =
     (case stripped_line lines i of
        Inl e \<Rightarrow> Inl e
      | Inr question \<Rightarrow>
          (case stripped_line lines (i + 1) of
             Inl e \<Rightarrow> Inl e
           | Inr answer \<Rightarrow> Inr (qa_pairs @ [qa_dict question answer])))"

fun for_loop :: "pystr list \<Rightarrow> nat list \<Rightarrow> pydict list \<Rightarrow> exn + pydict list" where
  "for_loop lines [] qa_pairs = Inr qa_pairs"
| "for_loop lines (i # is) qa_pairs =
     (case loop_body lines i qa_pairs of
        Inl e \<Rightarrow> Inl e
      | Inr qa_pairs' \<Rightarrow> for_loop lines is qa_pairs')"

definition parse_qa_pairs :: "pystr \<Rightarrow> exn + pydict list" where
  "parse_qa_pairs generated_content =
     (let lines = split_nl generated_content
      in for_loop lines (range2 0 (length lines)) [])"

text \<open>
  The segmenter sits under the guard \<^verbatim>\<open>if generated_content:\<close> of line 197: for the
  empty text \<^verbatim>\<open>main\<close> runs neither the loop nor an exporter, and no list of pairs exists.
\<close>

definition main_qa_pairs :: "pystr \<Rightarrow> (exn + pydict list) option" where
  "main_qa_pairs generated_content =
     (if generated_content \<noteq> [] then Some (parse_qa_pairs generated_content) else None)"

subsection \<open>What the exporters work on\<close>

text \<open>
  \<^verbatim>\<open>st.error(msg)\<close> shows a message to the user; the user interface is the list of the
  messages shown so far. A record sequence, as the segmenter appends it, is a list of
  dictionaries with the two keys \<^verbatim>\<open>"Question"\<close> and \<^verbatim>\<open>"Answer"\<close>, in this order.
\<close>

type_synonym ui = "pystr list"

definition st_error :: "pystr \<Rightarrow> ui \<Rightarrow> ui" where
  "st_error msg u = u @ [msg]"

definition record_sequence :: "(pystr \<times> pystr) list \<Rightarrow> pydict list" where
  "record_sequence qas = map (\<lambda>(question, answer). qa_dict question answer) qas"

text \<open>
  The records that a run of \<^verbatim>\<open>main\<close> has made from the generated text when it comes to
  the export options: those that the loop has appended, and none when the guard of line 197
  has kept the text away from the loop.
\<close>

definition records_made :: "pystr \<Rightarrow> pydict list" where
  "records_made generated_content =
     (case main_qa_pairs generated_content of
        None \<Rightarrow> []
      | Some (Inl e) \<Rightarrow> []
      | Some (Inr qa_pairs) \<Rightarrow> qa_pairs)"

subsection \<open>\<^verbatim>\<open>export_to_excel\<close>\<close>

text \<open>
  \<^verbatim>\<open>pd.DataFrame(data)\<close> on a list of dictionaries: one row for every dictionary; the
  columns are the keys in the order in which they are first seen, and each column holds one
  value for every dictionary, missing (\<open>None\<close>) where the dictionary lacks the key. The
  empty list of dictionaries gives the frame without rows and without columns.
\<close>

fun unique_keys :: "'a list \<Rightarrow> 'a list \<Rightarrow> 'a list" where
  "unique_keys seen [] = seen"
| "unique_keys seen (k # ks) =
     (if k \<in> set seen then unique_keys seen ks else unique_keys (seen @ [k]) ks)"

record dataframe =
  n_rows :: nat
  columns :: "(pystr \<times> pystr option list) list"

definition DataFrame :: "pydict list \<Rightarrow> dataframe" where
  "DataFrame data =
     \<lparr>n_rows = length data,
      columns = map (\<lambda>k. (k, map (\<lambda>d. map_of d k) data))
                  (unique_keys [] (concat (map (map fst) data)))\<rparr>"

text \<open>
  \<^verbatim>\<open>df.to_excel(writer, index=False, sheet_name=...)\<close> first refuses a frame of more than
  \<open>2 ^ 20\<close> rows or \<open>2 ^ 14\<close> columns, before the writer has any sheet. Then it makes the
  sheet and writes cells at (row, column): the header cells, one for each column name, in
  row 0, then under each column its values from row 1 on, a missing value as the empty
  text. With \<^verbatim>\<open>index=False\<close> no cell holds a row label.

  Each text goes into its cell through openpyxl's \<^verbatim>\<open>check_string\<close>, which keeps the first
  32767 characters and raises \<open>IllegalCharacterError\<close> when these hold a control character
  other than tab, line feed and carriage return. A sheet is the list of its cells with the
  value that \<^verbatim>\<open>cell.value\<close> returns. The result of \<open>to_excel\<close> is the finished sheet, or
  the exception together with the sheets that the writer holds at that moment.
\<close>

type_synonym excel_cell = "nat \<times> nat \<times> pystr"

record worksheet =
  title :: pystr
  cells :: "excel_cell list"

definition format_header :: "dataframe \<Rightarrow> excel_cell list" where
  "format_header df = map (\<lambda>(j, name, series). (0, j, name)) (enumerate 0 (columns df))"

definition cell_text :: "pystr option \<Rightarrow> pystr" where
  "cell_text v = (case v of None \<Rightarrow> [] | Some s \<Rightarrow> s)"

definition format_body :: "dataframe \<Rightarrow> excel_cell list" where
  "format_body df =
     concat (map (\<lambda>(j, name, series).
                    map (\<lambda>(i, v). (1 + i, j, cell_text v)) (enumerate 0 series))
               (enumerate 0 (columns df)))"

definition illegal_character :: "nat \<Rightarrow> bool" where
  "illegal_character c \<longleftrightarrow> c \<le> 0x08 \<or> c = 0x0B \<or> c = 0x0C \<or> (0x0E \<le> c \<and> c \<le> 0x1F)"

definition check_string :: "pystr \<Rightarrow> exn + pystr" where
  "check_string v =
     (let v' = take 32767 v
      in if \<exists>c \<in> set v'. illegal_character c then Inl (IllegalCharacterError v') else Inr v')"

fun write_cells ::
  "excel_cell list \<Rightarrow> excel_cell list \<Rightarrow> exn \<times> excel_cell list + excel_cell list" where
  "write_cells [] sheet = Inr sheet"
| "write_cells ((r, c, v) # cs) sheet =
     (case check_string v of
        Inl e \<Rightarrow> Inl (e, sheet)
      | Inr v' \<Rightarrow> write_cells cs (sheet @ [(r, c, v')]))"

definition to_excel :: "dataframe \<Rightarrow> pystr \<Rightarrow> exn \<times> worksheet list + worksheet" where
  "to_excel df sheet_name =
     (if n_rows df > 2 ^ 20 \<or> length (columns df) > 2 ^ 14
      then Inl (SheetTooLarge (n_rows df) (length (columns df)), [])
      else (case write_cells (format_header df @ format_body df) [] of
              Inl (e, written) \<Rightarrow> Inl (e, [\<lparr>title = sheet_name, cells = written\<rparr>])
            | Inr written \<Rightarrow> Inr \<lparr>title = sheet_name, cells = written\<rparr>))"

text \<open>
  \<^verbatim>\<open>
  def export_to_excel(data):
      try:
          df = pd.DataFrame(data)
          output = io.BytesIO()
          with pd.ExcelWriter(output, engine='openpyxl') as writer:
              df.to_excel(writer, index=False, sheet_name='Interview Questions')
          output.seek(0)
          return output
      except Exception as e:
          st.error(f"Error exporting to Excel: {e}")
          return None
  \<close>
  The encoding of the workbook into the bytes of an xlsx file is the work of openpyxl, which
  is no part of the repository: it is the parameter \<open>save_workbook\<close>, which gives the
  bytes or the exception raised. The writer saves when the \<^verbatim>\<open>with\<close> block ends, also when
  the block ends by an exception: then it saves the sheets that it holds, and the exception
  that leaves the block is the one of this save if it raises too, and else the first one.
  \<open>excel_sheet\<close> is the call of \<^verbatim>\<open>to_excel\<close> on the frame of the data, \<open>excel_try\<close> the
  body of the \<^verbatim>\<open>try\<close>.
\<close>

definition excel_sheet :: "pydict list \<Rightarrow> exn \<times> worksheet list + worksheet" where
  "excel_sheet data = (let df = DataFrame data in to_excel df (str ''Interview Questions''))"

definition excel_try :: "(worksheet list \<Rightarrow> exn + bytes) \<Rightarrow> pydict list \<Rightarrow> exn + bytes" where
  "excel_try save_workbook data =
     (case excel_sheet data of
        Inr sheet \<Rightarrow> save_workbook [sheet]
      | Inl (e, held) \<Rightarrow>
          (case save_workbook held of Inl e' \<Rightarrow> Inl e' | Inr output \<Rightarrow> Inl e))"

definition export_to_excel ::
  "(exn \<Rightarrow> pystr) \<Rightarrow> (worksheet list \<Rightarrow> exn + bytes) \<Rightarrow> pydict list \<Rightarrow> ui \<Rightarrow>
     bytes option \<times> ui" where
  "export_to_excel exn_text save_workbook data u =
     (case excel_try save_workbook data of
        Inr output \<Rightarrow> (Some output, u)
      | Inl e \<Rightarrow> (None, st_error (str ''Error exporting to Excel: '' @ exn_text e) u))"

subsection \<open>\<^verbatim>\<open>export_to_word\<close>\<close>

text \<open>
  A python-docx document is the list of its blocks in order, and \<^verbatim>\<open>Document()\<close> starts
  with none. A block is a heading with its level or a paragraph; it holds the content of
  its run: pieces of text, tab elements and line breaks.

  \<^verbatim>\<open>add_paragraph(text)\<close> makes no run for the empty text. Otherwise it goes through the
  characters with a buffer: a tab character closes the buffered text and adds a tab element,
  a carriage return or a line feed closes it and adds a line break, every other character
  goes into the buffer; the end of the text closes the buffer. To close the buffer is to
  add its text as a text element if it is not empty, and lxml refuses a text that XML
  cannot hold: \<open>UnicodeEncodeError\<close> when it has a surrogate code point, its
  \<^verbatim>\<open>ValueError\<close> when it has a control character or one of U+FFFE and U+FFFF.
  \<^verbatim>\<open>add_heading(text, level)\<close> raises for a level above 9 and is \<^verbatim>\<open>add_paragraph\<close> with
  the style of the level otherwise.
\<close>

datatype inline = Text pystr | Tab | Break

datatype block = Heading nat "inline list" | Paragraph "inline list"

type_synonym document = "block list"

definition Document :: document where
  "Document = []"

definition surrogate :: "nat \<Rightarrow> bool" where
  "surrogate c \<longleftrightarrow> 0xD800 \<le> c \<and> c \<le> 0xDFFF"

definition xml_char :: "nat \<Rightarrow> bool" where
  "xml_char c \<longleftrightarrow> (c = 0x09 \<or> c = 0x0A \<or> c = 0x0D \<or> 0x20 \<le> c) \<and> c \<noteq> 0xFFFE \<and> c \<noteq> 0xFFFF"

definition add_t :: "pystr \<Rightarrow> exn + inline" where
  "add_t text =
     (if \<exists>c \<in> set text. surrogate c then Inl (UnicodeEncodeError text)
      else if \<exists>c \<in> set text. \<not> xml_char c then Inl (XMLValueError text)
      else Inr (Text text))"

definition flush :: "pystr \<Rightarrow> inline list \<Rightarrow> exn + inline list" where
  "flush bfr run =
     (if bfr = [] then Inr run
      else (case add_t bfr of Inl e \<Rightarrow> Inl e | Inr t \<Rightarrow> Inr (run @ [t])))"

fun add_text :: "pystr \<Rightarrow> pystr \<Rightarrow> inline list \<Rightarrow> exn + inline list" where
  "add_text [] bfr run = flush bfr run"
| "add_text (c # cs) bfr run =
     (if c = 0x09
      then (case flush bfr run of Inl e \<Rightarrow> Inl e | Inr run' \<Rightarrow> add_text cs [] (run' @ [Tab]))
      else if c = 0x0D \<or> c = 0x0A
      then (case flush bfr run of Inl e \<Rightarrow> Inl e | Inr run' \<Rightarrow> add_text cs [] (run' @ [Break]))
      else add_text cs (bfr @ [c]) run)"

definition add_paragraph :: "pystr \<Rightarrow> document \<Rightarrow> exn + document" where
  "add_paragraph text doc =
     (case add_text text [] [] of
        Inl e \<Rightarrow> Inl e
      | Inr run \<Rightarrow> Inr (doc @ [Paragraph run]))"

definition add_heading :: "pystr \<Rightarrow> nat \<Rightarrow> document \<Rightarrow> exn + document" where
  "add_heading text level doc =
     (if level \<le> 9
      then (case add_text text [] [] of
              Inl e \<Rightarrow> Inl e
            | Inr run \<Rightarrow> Inr (doc @ [Heading level run]))
      else Inl (HeadingLevelError level))"

text \<open>
  \<^verbatim>\<open>
  def export_to_word(data):
      try:
          doc = Document()
          doc.add_heading('Interview Questions and Answers', 0)
          for qa in data:
              doc.add_heading(qa['Question'], level=1)
              doc.add_paragraph(qa['Answer'])
          output = io.BytesIO()
          doc.save(output)
          output.seek(0)
          return output
      except Exception as e:
          st.error(f"Error exporting to Word: {e}")
          return None
  \<close>
  \<open>add_qa\<close> is the body of the loop, \<open>add_all\<close> the loop, \<open>word_document\<close> the
  document at the moment of \<^verbatim>\<open>doc.save\<close>, \<open>word_try\<close> the body of the \<^verbatim>\<open>try\<close>. The
  encoding into the bytes of a docx file is the parameter \<open>save_document\<close>.
\<close>

definition add_qa :: "pydict \<Rightarrow> document \<Rightarrow> exn + document" where
  "add_qa qa doc =
     (case dict_getitem qa (str ''Question'') of
        Inl e \<Rightarrow> Inl e
      | Inr question \<Rightarrow>
          (case add_heading question 1 doc of
             Inl e \<Rightarrow> Inl e
           | Inr doc' \<Rightarrow>
               (case dict_getitem qa (str ''Answer'') of
                  Inl e \<Rightarrow> Inl e
                | Inr answer \<Rightarrow> add_paragraph answer doc')))"

fun add_all :: "pydict list \<Rightarrow> document \<Rightarrow> exn + document" where
  "add_all [] doc = Inr doc"
| "add_all (qa # data) doc =
     (case add_qa qa doc of Inl e \<Rightarrow> Inl e | Inr doc' \<Rightarrow> add_all data doc')"

definition word_document :: "pydict list \<Rightarrow> exn + document" where
  "word_document data =
     (case add_heading (str ''Interview Questions and Answers'') 0 Document of
        Inl e \<Rightarrow> Inl e
      | Inr doc \<Rightarrow> add_all data doc)"

definition word_try :: "(document \<Rightarrow> exn + bytes) \<Rightarrow> pydict list \<Rightarrow> exn + bytes" where
  "word_try save_document data =
     (case word_document data of Inl e \<Rightarrow> Inl e | Inr doc \<Rightarrow> save_document doc)"

definition export_to_word ::
  "(exn \<Rightarrow> pystr) \<Rightarrow> (document \<Rightarrow> exn + bytes) \<Rightarrow> pydict list \<Rightarrow> ui \<Rightarrow>
     bytes option \<times> ui" where
  "export_to_word exn_text save_document data u =
     (case word_try save_document data of
        Inr output \<Rightarrow> (Some output, u)
      | Inl e \<Rightarrow> (None, st_error (str ''Error exporting to Word: '' @ exn_text e) u))"

subsection \<open>Notions for the statements\<close>

text \<open>
  Two encoders to try the exporters with: one that raises, whatever it is given, and one
  that returns no bytes. And a way to print exceptions: the name of the kind.
\<close>

definition failing_save :: "pystr \<Rightarrow> 'a \<Rightarrow> exn + bytes" where
  "failing_save cause x = Inl (EncoderError cause)"

definition empty_save :: "'a \<Rightarrow> exn + bytes" where
  "empty_save x = Inr []"

fun kind_text :: "exn \<Rightarrow> pystr" where
  "kind_text IndexError = str ''IndexError''"
| "kind_text (KeyError k) = str ''KeyError''"
| "kind_text (UnicodeEncodeError t) = str ''UnicodeEncodeError''"
| "kind_text (SheetTooLarge r c) = str ''ValueError''"
| "kind_text (IllegalCharacterError v) = str ''IllegalCharacterError''"
| "kind_text (HeadingLevelError l) = str ''ValueError''"
| "kind_text (XMLValueError t) = str ''ValueError''"
| "kind_text (EncoderError m) = m"


text \<open>The field that line \<open>i\<close> gives, the empty text when there is no such line.\<close>

definition line_or_empty :: "pystr list \<Rightarrow> nat \<Rightarrow> pystr" where
  "line_or_empty lines i = (if i < length lines then strip (lines ! i) else [])"

text \<open>The cells that one column's values take on a sheet, from row 1 on.\<close>

definition column_cells :: "nat \<Rightarrow> pystr list \<Rightarrow> excel_cell list" where
  "column_cells j vs = map (\<lambda>(i, v). (1 + i, j, v)) (enumerate 0 vs)"

text \<open>
  A text that a worksheet cell takes: its first 32767 characters hold no illegal character.
  A text that a document takes: no character that XML cannot hold.
\<close>

definition worksheet_text :: "pystr \<Rightarrow> bool" where
  "worksheet_text v \<longleftrightarrow> (\<forall>c \<in> set (take 32767 v). \<not> illegal_character c)"

definition xml_text :: "pystr \<Rightarrow> bool" where
  "xml_text t \<longleftrightarrow> (\<forall>c \<in> set t. xml_char c \<and> \<not> surrogate c)"

text \<open>
  The content of the run that \<^verbatim>\<open>add_paragraph\<close> makes of a text that XML can hold, with
  the text buffered so far; and the text that python-docx reads back from a content
  (\<^verbatim>\<open>paragraph.text\<close>): a tab for a tab element, a line feed for a line break, so that
  a carriage return of the text is read back as a line feed (\<open>cr_as_lf\<close>).
\<close>

fun run_content :: "pystr \<Rightarrow> pystr \<Rightarrow> inline list" where
  "run_content [] bfr = (if bfr = [] then [] else [Text bfr])"
| "run_content (c # cs) bfr =
     (if c = 0x09 then (if bfr = [] then [] else [Text bfr]) @ Tab # run_content cs []
      else if c = 0x0D \<or> c = 0x0A
      then (if bfr = [] then [] else [Text bfr]) @ Break # run_content cs []
      else run_content cs (bfr @ [c]))"

definition cr_as_lf :: "pystr \<Rightarrow> pystr" where
  "cr_as_lf t = map (\<lambda>c. if c = 0x0D then 0x0A else c) t"

fun inline_text :: "inline \<Rightarrow> pystr" where
  "inline_text (Text t) = t"
| "inline_text Tab = [0x09]"
| "inline_text Break = [0x0A]"

fun block_text :: "block \<Rightarrow> pystr" where
  "block_text (Heading level run) = concat (map inline_text run)"
| "block_text (Paragraph run) = concat (map inline_text run)"

section \<open>The segmenter\<close>

subsection \<open>The loop as a map over the line pairs\<close>

lemma stripped_line_eq: "stripped_line lines i = Inr (line_or_empty lines i)"
  by (simp add: stripped_line_def getitem_def line_or_empty_def)

lemma loop_body_eq:
  "loop_body lines i acc =
     Inr (acc @ [qa_dict (line_or_empty lines i) (line_or_empty lines (i + 1))])"
  by (simp add: loop_body_def stripped_line_eq)

lemma for_loop_eq:
  "for_loop lines is acc =
     Inr (acc @ map (\<lambda>i. qa_dict (line_or_empty lines i) (line_or_empty lines (i + 1))) is)"
  by (induction "is" arbitrary: acc) (simp_all add: loop_body_eq)

lemma range2_even: "range2 (2 * j) n = map (\<lambda>k. 2 * k) [j..<(n + 1) div 2]"
proof (induction "2 * j" n arbitrary: j rule: range2.induct)
  case (1 n)
  show ?case
  proof (cases "2 * j < n")
    case True
    then have lt: "j < (n + 1) div 2" by arith
    have "range2 (2 * j) n = 2 * j # range2 (2 * Suc j) n"
      using True by (subst range2.simps) simp
    also have "range2 (2 * Suc j) n = map (\<lambda>k. 2 * k) [Suc j..<(n + 1) div 2]"
      using "1.hyps" [of "Suc j"] True by simp
    finally show ?thesis using lt by (simp add: upt_conv_Cons)
  next
    case False
    then have "\<not> j < (n + 1) div 2" by arith
    with False show ?thesis by (subst range2.simps) simp
  qed
qed

lemma split_nl_nonempty: "split_nl s \<noteq> []"
  by (induction s) (auto split: list.splits)

lemma split_nl_length_pos: "0 < length (split_nl s)"
  using split_nl_nonempty [of s] by simp

lemma parse_qa_pairs_eq:
  "parse_qa_pairs s =
     Inr (map (\<lambda>k. qa_dict (line_or_empty (split_nl s) (2 * k))
                      (line_or_empty (split_nl s) (2 * k + 1)))
            [0..<(length (split_nl s) + 1) div 2])"
  using range2_even [of 0 "length (split_nl s)"]
  by (simp add: parse_qa_pairs_def for_loop_eq Let_def)

lemma record_getitem:
  "dict_getitem (qa_dict q a) (str ''Question'') = Inr q"
  "dict_getitem (qa_dict q a) (str ''Answer'') = Inr a"
  by (simp_all add: dict_getitem_def qa_dict_def str_def)

lemma main_runs_on_text: "main_qa_pairs s = Some r \<Longrightarrow> s \<noteq> []"
  by (auto simp: main_qa_pairs_def split: if_splits)

lemma loop_on_empty_text: "parse_qa_pairs [] = Inr [qa_dict [] []]"
  by (simp add: parse_qa_pairs_eq line_or_empty_def strip_def)

subsection \<open>The empty text\<close>

text \<open>
  C1: for the empty input string the segmenter gives zero records, and not one record whose
  question and answer are both empty. The loop alone would make that one record of the
  single empty line of \<^verbatim>\<open>"".split('\n')\<close> (\<open>loop_on_empty_text\<close>); the special case is
  the guard \<^verbatim>\<open>if generated_content:\<close>, which keeps the empty text away from the loop, so
  that the run makes no record; and the empty text is the only one of which the run makes
  no record.
\<close>

theorem segmenter_empty_text:
  "main_qa_pairs [] = None \<and>
   records_made [] = [] \<and>
   length (records_made []) = 0 \<and>
   records_made [] \<noteq> [[(str ''Question'', []), (str ''Answer'', [])]] \<and>
   (records_made s = []) = (s = [])"
proof -
  have empty: "main_qa_pairs [] = None" "records_made [] = []"
    by (simp_all add: main_qa_pairs_def records_made_def)
  have "records_made s \<noteq> []" if "s \<noteq> []"
  proof -
    have "0 < (length (split_nl s) + 1) div 2"
      using split_nl_length_pos [of s] by arith
    then have "[0..<(length (split_nl s) + 1) div 2] \<noteq> []" by simp
    then show ?thesis
      using that by (simp add: records_made_def main_qa_pairs_def parse_qa_pairs_eq)
  qed
  with empty show ?thesis by auto
qed

subsection \<open>An even number of lines\<close>

text \<open>
  C2: when the split at the line feeds gives \<open>2 * n\<close> lines, the segmenter produces exactly
  \<open>n\<close> records, and record \<open>i\<close> is the dictionary whose \<^verbatim>\<open>"Question"\<close> is line \<open>2 * i\<close>,
  stripped, and whose \<^verbatim>\<open>"Answer"\<close> is line \<open>2 * i + 1\<close>, stripped: these are the values
  that a read of the two keys returns. Such a text is not empty, so these are the records
  that the run of \<^verbatim>\<open>main\<close> makes.
\<close>

theorem segmenter_even:
  assumes "length (split_nl s) = 2 * n"
  shows "\<exists>qa_pairs. parse_qa_pairs s = Inr qa_pairs \<and> length qa_pairs = n \<and>
           (\<forall>i<n. qa_pairs ! i =
                     [(str ''Question'', strip (split_nl s ! (2 * i))),
                      (str ''Answer'', strip (split_nl s ! (2 * i + 1)))] \<and>
                   dict_getitem (qa_pairs ! i) (str ''Question'') =
                     Inr (strip (split_nl s ! (2 * i))) \<and>
                   dict_getitem (qa_pairs ! i) (str ''Answer'') =
                     Inr (strip (split_nl s ! (2 * i + 1)))) \<and>
           main_qa_pairs s = Some (Inr qa_pairs) \<and>
           records_made s = qa_pairs"
proof -
  let ?ls = "split_nl s"
  let ?f = "\<lambda>k. qa_dict (line_or_empty ?ls (2 * k)) (line_or_empty ?ls (2 * k + 1))"
  let ?qs = "map ?f [0..<n]"
  have "s \<noteq> []" using assms split_nl_length_pos [of s] by (cases s) auto
  have half: "(length ?ls + 1) div 2 = n" using assms by simp
  have eq: "parse_qa_pairs s = Inr ?qs"
    unfolding parse_qa_pairs_eq half ..
  have main: "main_qa_pairs s = Some (Inr ?qs)"
    using \<open>s \<noteq> []\<close> eq by (simp add: main_qa_pairs_def)
  have made: "records_made s = ?qs"
    by (simp add: records_made_def main)
  have at: "?qs ! i = qa_dict (strip (?ls ! (2 * i))) (strip (?ls ! (2 * i + 1)))"
    if "i < n" for i
    using that assms by (simp add: line_or_empty_def)
  have fields: "\<forall>i<n. ?qs ! i = [(str ''Question'', strip (?ls ! (2 * i))),
                                  (str ''Answer'', strip (?ls ! (2 * i + 1)))] \<and>
      dict_getitem (?qs ! i) (str ''Question'') = Inr (strip (?ls ! (2 * i))) \<and>
      dict_getitem (?qs ! i) (str ''Answer'') = Inr (strip (?ls ! (2 * i + 1)))"
  proof (intro allI impI)
    fix i assume "i < n"
    from at [OF this] show "?qs ! i = [(str ''Question'', strip (?ls ! (2 * i))),
                                  (str ''Answer'', strip (?ls ! (2 * i + 1)))] \<and>
      dict_getitem (?qs ! i) (str ''Question'') = Inr (strip (?ls ! (2 * i))) \<and>
      dict_getitem (?qs ! i) (str ''Answer'') = Inr (strip (?ls ! (2 * i + 1)))"
      by (simp only: record_getitem) (simp add: qa_dict_def)
  qed
  have len: "length ?qs = n" by simp
  show ?thesis
    using eq len fields main made by blast
qed

theorem segmenter_even_witness:
  "length (split_nl (str ''Q1'' @ [0x0A] @ str '' A1 '' @ [0x0A] @ str ''Q2'' @ [0x0A] @ str ''A2''))
     = 2 * 2 \<and>
   parse_qa_pairs (str ''Q1'' @ [0x0A] @ str '' A1 '' @ [0x0A] @ str ''Q2'' @ [0x0A] @ str ''A2'') =
     Inr [[(str ''Question'', str ''Q1''), (str ''Answer'', str ''A1'')],
          [(str ''Question'', str ''Q2''), (str ''Answer'', str ''A2'')]] \<and>
   records_made (str ''Q1'' @ [0x0A] @ str '' A1 '' @ [0x0A] @ str ''Q2'' @ [0x0A] @ str ''A2'') =
     [[(str ''Question'', str ''Q1''), (str ''Answer'', str ''A1'')],
      [(str ''Question'', str ''Q2''), (str ''Answer'', str ''A2'')]] \<and>
   dict_getitem
     [(str ''Question'', str ''Q2''), (str ''Answer'', str ''A2'')] (str ''Answer'') =
     Inr (str ''A2'')"
proof -
  let ?s = "str ''Q1'' @ [0x0A] @ str '' A1 '' @ [0x0A] @ str ''Q2'' @ [0x0A] @ str ''A2''"
  let ?r0 = "[(str ''Question'', str ''Q1''), (str ''Answer'', str ''A1'')]"
  let ?r1 = "[(str ''Question'', str ''Q2''), (str ''Answer'', str ''A2'')]"
  have h: "length (split_nl ?s) = 2 * 2" by (simp add: str_def)
  from segmenter_even [OF h] obtain qs where
    p: "parse_qa_pairs ?s = Inr qs" and l: "length qs = 2" and
    n: "\<forall>i<2. qs ! i = [(str ''Question'', strip (split_nl ?s ! (2 * i))),
                         (str ''Answer'', strip (split_nl ?s ! (2 * i + 1)))] \<and>
          dict_getitem (qs ! i) (str ''Question'') = Inr (strip (split_nl ?s ! (2 * i))) \<and>
          dict_getitem (qs ! i) (str ''Answer'') = Inr (strip (split_nl ?s ! (2 * i + 1)))" and
    m: "records_made ?s = qs"
    by blast
  have i0: "(0::nat) < 2" and i1: "(1::nat) < 2" by simp_all
  from n i0 have "qs ! 0 = [(str ''Question'', strip (split_nl ?s ! (2 * 0))),
                            (str ''Answer'', strip (split_nl ?s ! (2 * 0 + 1)))]" by blast
  then have q0: "qs ! 0 = ?r0"
    by (simp add: str_def strip_def isspace_def)
  from n i1 have x1: "qs ! 1 = [(str ''Question'', strip (split_nl ?s ! (2 * 1))),
                            (str ''Answer'', strip (split_nl ?s ! (2 * 1 + 1)))] \<and>
      dict_getitem (qs ! 1) (str ''Answer'') = Inr (strip (split_nl ?s ! (2 * 1 + 1)))" by blast
  then have q1: "qs ! 1 = ?r1"
    by (simp add: str_def strip_def isspace_def)
  have v1: "strip (split_nl ?s ! (2 * 1 + 1)) = str ''A2''"
    by (simp add: str_def strip_def isspace_def)
  from x1 have "dict_getitem (qs ! 1) (str ''Answer'') = Inr (strip (split_nl ?s ! (2 * 1 + 1)))"
    by blast
  then have g: "dict_getitem ?r1 (str ''Answer'') = Inr (str ''A2'')"
    unfolding q1 v1 .
  from q0 q1 l have "qs = [?r0, ?r1]"
    by (cases qs; cases "tl qs") auto
  with h p m g show ?thesis by simp
qed

subsection \<open>An odd number of lines\<close>

text \<open>
  C3: when the split at the line feeds gives \<open>2 * n + 1\<close> lines, the segmenter produces
  exactly \<open>n + 1\<close> records; the first \<open>n\<close> pair the lines as before, and the final record
  is the dictionary whose \<^verbatim>\<open>"Question"\<close> is the last line, stripped, and whose
  \<^verbatim>\<open>"Answer"\<close> is the empty string: these are the values that a read of the two keys
  returns. When the text is not empty, these are the records that the run of \<^verbatim>\<open>main\<close>
  makes.
\<close>

theorem segmenter_odd:
  assumes "length (split_nl s) = 2 * n + 1"
  shows "\<exists>qa_pairs. parse_qa_pairs s = Inr qa_pairs \<and> length qa_pairs = n + 1 \<and>
           (\<forall>i<n. qa_pairs ! i =
                     [(str ''Question'', strip (split_nl s ! (2 * i))),
                      (str ''Answer'', strip (split_nl s ! (2 * i + 1)))] \<and>
                   dict_getitem (qa_pairs ! i) (str ''Question'') =
                     Inr (strip (split_nl s ! (2 * i))) \<and>
                   dict_getitem (qa_pairs ! i) (str ''Answer'') =
                     Inr (strip (split_nl s ! (2 * i + 1)))) \<and>
           qa_pairs ! n = [(str ''Question'', strip (split_nl s ! (2 * n))), (str ''Answer'', [])] \<and>
           last qa_pairs = [(str ''Question'', strip (last (split_nl s))), (str ''Answer'', [])] \<and>
           dict_getitem (last qa_pairs) (str ''Question'') = Inr (strip (last (split_nl s))) \<and>
           dict_getitem (last qa_pairs) (str ''Answer'') = Inr [] \<and>
           (s \<noteq> [] \<longrightarrow> records_made s = qa_pairs)"
proof -
  let ?ls = "split_nl s"
  let ?f = "\<lambda>k. qa_dict (line_or_empty ?ls (2 * k)) (line_or_empty ?ls (2 * k + 1))"
  let ?qs = "map ?f [0..<n + 1]"
  have half: "(length ?ls + 1) div 2 = n + 1" using assms by simp
  have eq: "parse_qa_pairs s = Inr ?qs"
    unfolding parse_qa_pairs_eq half ..
  have made: "s \<noteq> [] \<longrightarrow> records_made s = ?qs"
    using eq by (simp add: records_made_def main_qa_pairs_def)
  have at: "?qs ! i = qa_dict (strip (?ls ! (2 * i))) (strip (?ls ! (2 * i + 1)))"
    if "i < n" for i
  proof -
    from that have "?qs ! i = ?f i" by (simp add: nth_append)
    also have "\<dots> = qa_dict (strip (?ls ! (2 * i))) (strip (?ls ! (2 * i + 1)))"
      using that assms by (simp add: line_or_empty_def)
    finally show ?thesis .
  qed
  have fields: "\<forall>i<n. ?qs ! i = [(str ''Question'', strip (?ls ! (2 * i))),
                                  (str ''Answer'', strip (?ls ! (2 * i + 1)))] \<and>
      dict_getitem (?qs ! i) (str ''Question'') = Inr (strip (?ls ! (2 * i))) \<and>
      dict_getitem (?qs ! i) (str ''Answer'') = Inr (strip (?ls ! (2 * i + 1)))"
  proof (intro allI impI)
    fix i assume "i < n"
    from at [OF this] show "?qs ! i = [(str ''Question'', strip (?ls ! (2 * i))),
                                  (str ''Answer'', strip (?ls ! (2 * i + 1)))] \<and>
      dict_getitem (?qs ! i) (str ''Question'') = Inr (strip (?ls ! (2 * i))) \<and>
      dict_getitem (?qs ! i) (str ''Answer'') = Inr (strip (?ls ! (2 * i + 1)))"
      by (simp only: record_getitem) (simp add: qa_dict_def)
  qed
  have at_n: "?qs ! n = qa_dict (strip (?ls ! (2 * n))) []"
    using assms by (simp add: nth_append line_or_empty_def)
  have "?ls \<noteq> []" by (rule split_nl_nonempty)
  then have last_line: "last ?ls = ?ls ! (2 * n)"
    using assms by (simp add: last_conv_nth)
  have last_qs: "last ?qs = ?qs ! n"
    by (simp add: last_conv_nth nth_append)
  have final: "?qs ! n = [(str ''Question'', strip (?ls ! (2 * n))), (str ''Answer'', [])]"
    "last ?qs = [(str ''Question'', strip (last ?ls)), (str ''Answer'', [])]"
    "dict_getitem (last ?qs) (str ''Question'') = Inr (strip (last ?ls))"
    "dict_getitem (last ?qs) (str ''Answer'') = Inr []"
    unfolding last_qs last_line at_n
    by (simp_all only: record_getitem) (simp_all add: qa_dict_def)
  have len: "length ?qs = n + 1" by simp
  show ?thesis
    using eq len fields final made by blast
qed

theorem segmenter_odd_witness:
  "length (split_nl (str ''Q1'' @ [0x0A] @ str ''A1'' @ [0x0A] @ str ''Q2 '')) = 2 * 1 + 1 \<and>
   str ''Q1'' @ [0x0A] @ str ''A1'' @ [0x0A] @ str ''Q2 '' \<noteq> [] \<and>
   parse_qa_pairs (str ''Q1'' @ [0x0A] @ str ''A1'' @ [0x0A] @ str ''Q2 '') =
     Inr [[(str ''Question'', str ''Q1''), (str ''Answer'', str ''A1'')],
          [(str ''Question'', str ''Q2''), (str ''Answer'', [])]] \<and>
   records_made (str ''Q1'' @ [0x0A] @ str ''A1'' @ [0x0A] @ str ''Q2 '') =
     [[(str ''Question'', str ''Q1''), (str ''Answer'', str ''A1'')],
      [(str ''Question'', str ''Q2''), (str ''Answer'', [])]] \<and>
   dict_getitem [(str ''Question'', str ''Q2''), (str ''Answer'', [])] (str ''Question'') =
     Inr (str ''Q2'')"
proof -
  let ?s = "str ''Q1'' @ [0x0A] @ str ''A1'' @ [0x0A] @ str ''Q2 ''"
  let ?r0 = "[(str ''Question'', str ''Q1''), (str ''Answer'', str ''A1'')]"
  let ?r1 = "[(str ''Question'', str ''Q2''), (str ''Answer'', [])]"
  have h: "length (split_nl ?s) = 2 * 1 + 1" by (simp add: str_def)
  have ne: "?s \<noteq> []" by (simp add: str_def)
  from segmenter_odd [OF h] obtain qs where
    p: "parse_qa_pairs ?s = Inr qs" and l: "length qs = 1 + 1" and
    n: "\<forall>i<1. qs ! i = [(str ''Question'', strip (split_nl ?s ! (2 * i))),
                         (str ''Answer'', strip (split_nl ?s ! (2 * i + 1)))] \<and>
          dict_getitem (qs ! i) (str ''Question'') = Inr (strip (split_nl ?s ! (2 * i))) \<and>
          dict_getitem (qs ! i) (str ''Answer'') = Inr (strip (split_nl ?s ! (2 * i + 1)))" and
    e: "qs ! 1 = [(str ''Question'', strip (split_nl ?s ! (2 * 1))), (str ''Answer'', [])]" and
    la: "last qs = [(str ''Question'', strip (last (split_nl ?s))), (str ''Answer'', [])]" and
    g: "dict_getitem (last qs) (str ''Question'') = Inr (strip (last (split_nl ?s)))" and
    m: "?s \<noteq> [] \<longrightarrow> records_made ?s = qs"
    by blast
  have i0: "(0::nat) < 1" by simp
  from n i0 have "qs ! 0 = [(str ''Question'', strip (split_nl ?s ! (2 * 0))),
                            (str ''Answer'', strip (split_nl ?s ! (2 * 0 + 1)))]" by blast
  then have q0: "qs ! 0 = ?r0"
    by (simp add: str_def strip_def isspace_def)
  from e have q1: "qs ! 1 = ?r1"
    by (simp add: str_def strip_def isspace_def)
  from la have l1: "last qs = ?r1"
    by (simp add: str_def strip_def isspace_def)
  have v1: "strip (last (split_nl ?s)) = str ''Q2''"
    by (simp add: str_def strip_def isspace_def)
  from g have g1: "dict_getitem ?r1 (str ''Question'') = Inr (str ''Q2'')"
    unfolding l1 v1 .
  from q0 q1 l have "qs = [?r0, ?r1]"
    by (cases qs; cases "tl qs") auto
  with h ne p m g1 show ?thesis by simp
qed

subsection \<open>No failing branch\<close>

text \<open>
  C7: the segmenter is total. For every input string it returns a record sequence and never
  the exception of a read out of range, since each read of a line is guarded by the
  comparison of its index with the number of lines; this holds of the loop on any list of
  indices, not only on those of \<^verbatim>\<open>range(0, len(lines), 2)\<close>.
\<close>

theorem segmenter_total:
  "(\<exists>qa_pairs. parse_qa_pairs s = Inr qa_pairs) \<and>
   (\<exists>qa_pairs. for_loop lines is acc = Inr qa_pairs)"
  by (simp add: parse_qa_pairs_eq for_loop_eq)

section \<open>The spreadsheet exporter\<close>

subsection \<open>The frame of a record sequence\<close>

lemma key_names_distinct: "str ''Question'' \<noteq> str ''Answer''"
  by (simp add: str_def)

lemma unique_keys_seen:
  "set ks \<subseteq> set seen \<Longrightarrow> unique_keys seen ks = seen"
  by (induction ks) auto

lemma record_keys:
  "concat (map (map fst) (record_sequence qas)) =
     concat (map (\<lambda>_. [str ''Question'', str ''Answer'']) qas)"
  by (induction qas) (auto simp: record_sequence_def qa_dict_def)

lemma unique_record_keys:
  assumes "qas \<noteq> []"
  shows "unique_keys [] (concat (map (map fst) (record_sequence qas))) =
           [str ''Question'', str ''Answer'']"
proof -
  obtain qa rest where qas: "qas = qa # rest" using assms by (cases qas) auto
  have "set (concat (map (\<lambda>_. [str ''Question'', str ''Answer'']) rest))
          \<subseteq> set [str ''Question'', str ''Answer'']"
    by auto
  then have "unique_keys [str ''Question'', str ''Answer'']
               (concat (map (\<lambda>_. [str ''Question'', str ''Answer'']) rest)) =
             [str ''Question'', str ''Answer'']"
    by (rule unique_keys_seen)
  then show ?thesis
    using key_names_distinct by (simp add: record_keys qas)
qed

lemma DataFrame_records:
  assumes "qas \<noteq> []"
  shows "DataFrame (record_sequence qas) =
           \<lparr>n_rows = length qas,
            columns = [(str ''Question'', map (\<lambda>(q, a). Some q) qas),
                       (str ''Answer'', map (\<lambda>(q, a). Some a) qas)]\<rparr>"
  unfolding DataFrame_def unique_record_keys [OF assms]
  using key_names_distinct
  by (simp add: record_sequence_def qa_dict_def split_def o_def)

lemma DataFrame_empty: "DataFrame [] = \<lparr>n_rows = 0, columns = []\<rparr>"
  by (simp add: DataFrame_def)

lemma frame_cells_records:
  assumes "qas \<noteq> []"
  shows "format_header (DataFrame (record_sequence qas)) @
         format_body (DataFrame (record_sequence qas)) =
           [(0, 0, str ''Question''), (0, 1, str ''Answer'')] @
           column_cells 0 (map fst qas) @ column_cells 1 (map snd qas)"
  by (simp add: DataFrame_records [OF assms] format_header_def format_body_def
      column_cells_def cell_text_def enumerate_eq_zip zip_map2 split_def o_def)

subsection \<open>Writing the cells\<close>

lemma check_string_accepts: "worksheet_text v \<Longrightarrow> check_string v = Inr (take 32767 v)"
  by (simp add: check_string_def worksheet_text_def Let_def)

lemma check_string_refuses:
  "\<not> worksheet_text v \<Longrightarrow> check_string v = Inl (IllegalCharacterError (take 32767 v))"
  by (simp add: check_string_def worksheet_text_def Let_def)

lemma write_cells_accepts:
  "\<forall>(r, c, v) \<in> set cs. worksheet_text v \<Longrightarrow>
     write_cells cs sheet = Inr (sheet @ map (\<lambda>(r, c, v). (r, c, take 32767 v)) cs)"
proof (induction cs arbitrary: sheet)
  case Nil
  show ?case by simp
next
  case (Cons cell cs)
  obtain r c v where cell: "cell = (r, c, v)" by (cases cell)
  from Cons.prems have "worksheet_text v" and rest: "\<forall>(r, c, v) \<in> set cs. worksheet_text v"
    by (simp_all add: cell)
  then show ?case
    by (simp add: cell check_string_accepts Cons.IH [OF rest])
qed

lemma column_cells_values:
  "(r, c, v) \<in> set (column_cells j vs) \<Longrightarrow> v \<in> set vs"
  by (auto simp: column_cells_def in_set_enumerate_eq)

lemma column_cells_map:
  "map (\<lambda>(r, c, v). (r, c, f v)) (column_cells j vs) = column_cells j (map f vs)"
  by (simp add: column_cells_def enumerate_eq_zip zip_map2 split_def o_def)

lemma header_text:
  "worksheet_text (str ''Question'')" "worksheet_text (str ''Answer'')"
  "take 32767 (str ''Question'') = str ''Question''"
  "take 32767 (str ''Answer'') = str ''Answer''"
  by (simp_all add: worksheet_text_def str_def illegal_character_def)

lemma excel_sheet_records:
  assumes "qas \<noteq> []" and "length qas \<le> 2 ^ 20"
    and "\<forall>(q, a) \<in> set qas. worksheet_text q \<and> worksheet_text a"
  shows "excel_sheet (record_sequence qas) =
           Inr \<lparr>title = str ''Interview Questions'',
                cells = [(0, 0, str ''Question''), (0, 1, str ''Answer'')] @
                        column_cells 0 (map (take 32767) (map fst qas)) @
                        column_cells 1 (map (take 32767) (map snd qas))\<rparr>"
proof -
  let ?df = "DataFrame (record_sequence qas)"
  let ?cs = "[(0, 0, str ''Question''), (0, 1, str ''Answer'')] @
             column_cells 0 (map fst qas) @ column_cells 1 (map snd qas)"
  have size: "\<not> (n_rows ?df > 2 ^ 20 \<or> length (columns ?df) > 2 ^ 14)"
    using assms(2) by (simp add: DataFrame_records [OF assms(1)])
  have ok: "\<forall>(r, c, v) \<in> set ?cs. worksheet_text v"
    using assms(3) header_text(1,2) by (fastforce dest!: column_cells_values)
  have "write_cells ?cs [] = Inr (map (\<lambda>(r, c, v). (r, c, take 32767 v)) ?cs)"
    using write_cells_accepts [OF ok, of "[]"] by simp
  also have "map (\<lambda>(r, c, v). (r, c, take 32767 v)) ?cs =
      [(0, 0, str ''Question''), (0, 1, str ''Answer'')] @
      column_cells 0 (map (take 32767) (map fst qas)) @
      column_cells 1 (map (take 32767) (map snd qas))"
    by (simp add: column_cells_map header_text(3,4))
  finally have written: "write_cells (format_header ?df @ format_body ?df) [] =
      Inr ([(0, 0, str ''Question''), (0, 1, str ''Answer'')] @
           column_cells 0 (map (take 32767) (map fst qas)) @
           column_cells 1 (map (take 32767) (map snd qas)))"
    unfolding frame_cells_records [OF assms(1)] .
  show ?thesis
    unfolding excel_sheet_def Let_def to_excel_def if_not_P [OF size] written by simp
qed

subsection \<open>Reading the cells of a sheet\<close>












lemma bad_record_sheet:
  "excel_sheet (record_sequence [(str ''Q'' @ [0x01], str ''A'')]) =
     Inl (IllegalCharacterError (str ''Q'' @ [0x01]),
          [\<lparr>title = str ''Interview Questions'',
            cells = [(0, 0, str ''Question''), (0, 1, str ''Answer'')]\<rparr>])"
proof -
  have frame: "format_header (DataFrame (record_sequence [(str ''Q'' @ [0x01], str ''A'')])) @
      format_body (DataFrame (record_sequence [(str ''Q'' @ [0x01], str ''A'')])) =
      [(0, 0, str ''Question''), (0, 1, str ''Answer''),
       (1, 0, str ''Q'' @ [0x01]), (1, 1, str ''A'')]"
    by (simp add: frame_cells_records column_cells_def)
  have bad: "check_string (str ''Q'' @ [0x01]) = Inl (IllegalCharacterError (str ''Q'' @ [0x01]))"
    by (simp add: check_string_def Let_def str_def illegal_character_def)
  have written: "write_cells [(0, 0, str ''Question''), (0, 1, str ''Answer''),
                   (1, 0, str ''Q'' @ [0x01]), (1, 1, str ''A'')] [] =
      Inl (IllegalCharacterError (str ''Q'' @ [0x01]),
           [(0, 0, str ''Question''), (0, 1, str ''Answer'')])"
    using bad by (simp add: check_string_accepts header_text)
  show ?thesis
    unfolding excel_sheet_def Let_def to_excel_def frame written
    by (simp add: DataFrame_records)
qed

subsection \<open>The sheet of a record sequence\<close>




subsection \<open>The empty record sequence\<close>

text \<open>
  C10: applied to the empty record sequence, \<^verbatim>\<open>pd.DataFrame\<close> gives a frame without
  columns, so the sheet that \<^verbatim>\<open>export_to_excel\<close> writes has no cell and no header row; the
  two header cells are there exactly when the sequence has at least one record.
\<close>

theorem excel_header_iff_nonempty:
  "DataFrame [] = \<lparr>n_rows = 0, columns = []\<rparr> \<and>
   excel_sheet [] = Inr \<lparr>title = str ''Interview Questions'', cells = []\<rparr> \<and>
   format_header (DataFrame (record_sequence qas)) =
     (if qas = [] then [] else [(0, 0, str ''Question''), (0, 1, str ''Answer'')])"
proof -
  have "format_header (DataFrame (record_sequence qas)) =
          [(0, 0, str ''Question''), (0, 1, str ''Answer'')]" if "qas \<noteq> []"
    by (simp add: DataFrame_records [OF that] format_header_def)
  moreover have "format_header (DataFrame (record_sequence [])) = []"
    by (simp add: record_sequence_def DataFrame_empty format_header_def)
  moreover have "excel_sheet [] = Inr \<lparr>title = str ''Interview Questions'', cells = []\<rparr>"
    by (simp add: excel_sheet_def DataFrame_empty to_excel_def format_header_def format_body_def)
  ultimately show ?thesis
    by (simp add: DataFrame_empty)
qed

section \<open>The document exporter\<close>

subsection \<open>The run of a text\<close>

lemma xml_text_append: "xml_text (s @ t) \<longleftrightarrow> xml_text s \<and> xml_text t"
  by (auto simp: xml_text_def)

lemma xml_text_separators: "xml_text [0x09]" "xml_text [0x0D]" "xml_text [0x0A]"
  by (simp_all add: xml_text_def xml_char_def surrogate_def)

lemma add_t_accepts: "xml_text t \<Longrightarrow> add_t t = Inr (Text t)"
  by (auto simp: add_t_def xml_text_def)

lemma add_t_refuses: "\<not> xml_text t \<Longrightarrow> \<exists>e. add_t t = Inl e"
  by (auto simp: add_t_def xml_text_def)

lemma flush_accepts:
  "xml_text bfr \<Longrightarrow> flush bfr run = Inr (run @ (if bfr = [] then [] else [Text bfr]))"
  by (simp add: flush_def add_t_accepts)

lemma flush_refuses: "\<not> xml_text bfr \<Longrightarrow> \<exists>e. flush bfr run = Inl e"
proof -
  assume bad: "\<not> xml_text bfr"
  then have "bfr \<noteq> []" by (auto simp: xml_text_def)
  moreover from bad obtain e where "add_t bfr = Inl e" using add_t_refuses by blast
  ultimately show ?thesis by (simp add: flush_def)
qed

lemma add_text_accepts:
  "xml_text (bfr @ cs) \<Longrightarrow> add_text cs bfr run = Inr (run @ run_content cs bfr)"
proof (induction cs arbitrary: bfr run)
  case Nil
  then show ?case by (simp add: flush_accepts)
next
  case (Cons c cs)
  from Cons.prems have bfr: "xml_text bfr" and rest: "xml_text cs" and all: "xml_text ((bfr @ [c]) @ cs)"
    by (simp_all add: xml_text_append xml_text_def)
  from rest have rest': "xml_text ([] @ cs)" by simp
  show ?case
  proof (cases "c = 0x09 \<or> c = 0x0D \<or> c = 0x0A")
    case True
    then show ?thesis
      using flush_accepts [OF bfr] Cons.IH [OF rest'] by auto
  next
    case False
    then show ?thesis
      using Cons.IH [OF all] by simp
  qed
qed

lemma add_text_refuses:
  "\<not> xml_text (bfr @ cs) \<Longrightarrow> \<exists>e. add_text cs bfr run = Inl e"
proof (induction cs arbitrary: bfr run)
  case Nil
  then show ?case using flush_refuses [of bfr run] by simp
next
  case (Cons c cs)
  show ?case
  proof (cases "c = 0x09 \<or> c = 0x0D \<or> c = 0x0A")
    case True
    then have sep: "xml_text [c]" using xml_text_separators by auto
    show ?thesis
    proof (cases "xml_text bfr")
      case True
      with Cons.prems sep have "\<not> xml_text ([] @ cs)"
        using xml_text_append [of bfr "c # cs"] xml_text_append [of "[c]" cs] by simp
      from Cons.IH [OF this] flush_accepts [OF True] \<open>c = 0x09 \<or> c = 0x0D \<or> c = 0x0A\<close>
      show ?thesis by auto
    next
      case False
      from flush_refuses [OF this, of run] \<open>c = 0x09 \<or> c = 0x0D \<or> c = 0x0A\<close>
      show ?thesis by auto
    qed
  next
    case False
    from Cons.prems have "\<not> xml_text ((bfr @ [c]) @ cs)" by simp
    from Cons.IH [OF this] False show ?thesis by simp
  qed
qed

lemma run_content_text:
  "concat (map inline_text (run_content cs bfr)) = bfr @ cr_as_lf cs"
  by (induction cs arbitrary: bfr) (auto simp: cr_as_lf_def)

lemma run_content_plain:
  "\<forall>c \<in> set cs. c \<noteq> 0x09 \<and> c \<noteq> 0x0D \<and> c \<noteq> 0x0A \<Longrightarrow>
     run_content cs bfr = (if bfr @ cs = [] then [] else [Text (bfr @ cs)])"
  by (induction cs arbitrary: bfr) auto

subsection \<open>The blocks that the loop appends\<close>

lemma add_paragraph_accepts:
  "xml_text t \<Longrightarrow> add_paragraph t doc = Inr (doc @ [Paragraph (run_content t [])])"
  using add_text_accepts [of "[]" t "[]"] by (simp add: add_paragraph_def)

lemma add_heading_accepts:
  "xml_text t \<Longrightarrow> level \<le> 9 \<Longrightarrow>
     add_heading t level doc = Inr (doc @ [Heading level (run_content t [])])"
  using add_text_accepts [of "[]" t "[]"] by (simp add: add_heading_def)

lemma add_qa_record:
  "xml_text q \<Longrightarrow> xml_text a \<Longrightarrow>
     add_qa (qa_dict q a) doc =
       Inr (doc @ [Heading 1 (run_content q []), Paragraph (run_content a [])])"
  by (simp add: add_qa_def record_getitem add_heading_accepts add_paragraph_accepts)

lemma add_all_records:
  "\<forall>(q, a) \<in> set qas. xml_text q \<and> xml_text a \<Longrightarrow>
     add_all (record_sequence qas) doc =
       Inr (doc @ concat (map (\<lambda>(q, a). [Heading 1 (run_content q []),
                                          Paragraph (run_content a [])]) qas))"
proof (induction qas arbitrary: doc)
  case Nil
  show ?case by (simp add: record_sequence_def)
next
  case (Cons qa qas)
  obtain q a where qa: "qa = (q, a)" by (cases qa)
  from Cons.prems have ok: "xml_text q" "xml_text a"
    and rest: "\<forall>(q, a) \<in> set qas. xml_text q \<and> xml_text a"
    by (simp_all add: qa)
  have "add_all (record_sequence (qa # qas)) doc =
          add_all (record_sequence qas)
            (doc @ [Heading 1 (run_content q []), Paragraph (run_content a [])])"
    using add_qa_record [OF ok, of doc] by (simp add: record_sequence_def qa)
  then show ?case by (simp add: Cons.IH [OF rest] qa)
qed

lemma title_heading:
  "add_heading (str ''Interview Questions and Answers'') 0 Document =
     Inr [Heading 0 [Text (str ''Interview Questions and Answers'')]]"
proof -
  have ok: "xml_text (str ''Interview Questions and Answers'')"
    by (simp add: xml_text_def str_def xml_char_def surrogate_def)
  have plain: "\<forall>c \<in> set (str ''Interview Questions and Answers'').
      c \<noteq> 0x09 \<and> c \<noteq> 0x0D \<and> c \<noteq> 0x0A"
    by (simp add: str_def)
  have "str ''Interview Questions and Answers'' \<noteq> []" by (simp add: str_def)
  then have "run_content (str ''Interview Questions and Answers'') [] =
      [Text (str ''Interview Questions and Answers'')]"
    using run_content_plain [OF plain, of "[]"] by simp
  then show ?thesis
    using add_heading_accepts [OF ok, of 0 Document] by (simp add: Document_def)
qed

lemma word_document_eq:
  "\<forall>(q, a) \<in> set qas. xml_text q \<and> xml_text a \<Longrightarrow>
     word_document (record_sequence qas) =
       Inr (Heading 0 [Text (str ''Interview Questions and Answers'')] #
            concat (map (\<lambda>(q, a). [Heading 1 (run_content q []),
                                    Paragraph (run_content a [])]) qas))"
  by (simp add: word_document_def title_heading add_all_records)

lemma length_blocks:
  "length (concat (map (\<lambda>(q, a). [Heading 1 (run_content q []),
                                  Paragraph (run_content a [])]) qas)) = 2 * length qas"
  by (induction qas) auto

lemma nth_blocks:
  "i < length qas \<Longrightarrow>
     concat (map (\<lambda>(q, a). [Heading 1 (run_content q []), Paragraph (run_content a [])]) qas)
       ! (2 * i) = Heading 1 (run_content (fst (qas ! i)) []) \<and>
     concat (map (\<lambda>(q, a). [Heading 1 (run_content q []), Paragraph (run_content a [])]) qas)
       ! (2 * i + 1) = Paragraph (run_content (snd (qas ! i)) [])"
proof (induction qas arbitrary: i)
  case Nil
  then show ?case by simp
next
  case (Cons qa qas)
  show ?case
  proof (cases i)
    case 0
    then show ?thesis by (simp add: split_def)
  next
    case (Suc j)
    with Cons.prems have "j < length qas" by simp
    from Cons.IH [OF this] show ?thesis by (simp add: Suc split_def)
  qed
qed

lemma export_to_word_document:
  "word_document data = Inr doc \<Longrightarrow>
     export_to_word exn_text save_document data u =
       (case save_document doc of
          Inl e \<Rightarrow> (None, u @ [str ''Error exporting to Word: '' @ exn_text e])
        | Inr output \<Rightarrow> (Some output, u))"
  by (simp add: export_to_word_def word_try_def st_error_def split: sum.split)

lemma bad_record_document:
  "word_document (record_sequence [(str ''Q'' @ [0x01], str ''A'')]) =
     Inl (XMLValueError (str ''Q'' @ [0x01]))"
proof -
  have run: "add_text (str ''Q'' @ [0x01]) [] [] = Inl (XMLValueError (str ''Q'' @ [0x01]))"
    by (simp add: str_def flush_def add_t_def surrogate_def xml_char_def)
  show ?thesis
    unfolding word_document_def title_heading using run
    by (simp add: record_sequence_def add_qa_def record_getitem add_heading_def)
qed

subsection \<open>The document of a record sequence\<close>

text \<open>
  C6, as stated: for every record sequence the output is the title followed by a heading
  and a paragraph for each record. For a record with a control character that XML cannot
  hold, such as the question \<^verbatim>\<open>"Q\x01"\<close>, there is no output: \<^verbatim>\<open>add_heading\<close> raises and
  the exporter returns \<^verbatim>\<open>None\<close>, even when the encoder does not fail.
\<close>

theorem word_document_counterexample:
  "word_document (record_sequence [(str ''Q'' @ [0x01], str ''A'')]) =
     Inl (XMLValueError (str ''Q'' @ [0x01])) \<and>
   fst (export_to_word kind_text empty_save
          (record_sequence [(str ''Q'' @ [0x01], str ''A'')]) []) = None"
proof -
  note raised = bad_record_document
  have "fst (export_to_word kind_text empty_save
          (record_sequence [(str ''Q'' @ [0x01], str ''A'')]) []) = None"
    unfolding export_to_word_def word_try_def raised by simp
  with raised show ?thesis by simp
qed

text \<open>
  C6, amended: for every record sequence whose questions and answers XML can hold (no
  control character other than tab, line feed and carriage return, no surrogate, neither
  U+FFFE nor U+FFFF), the document that \<^verbatim>\<open>export_to_word\<close> saves is built without an
  exception. Its first block is the title heading, of level 0, with the text
  \<^verbatim>\<open>Interview Questions and Answers\<close>, and after it come, for record \<open>i\<close> in the order
  of the sequence, a heading of level 1 with the question at position \<open>1 + 2 * i\<close> and a
  paragraph with the answer at position \<open>2 + 2 * i\<close>. The text read back from each is the
  question or the answer, with its carriage returns read as line feeds. The length is
  \<open>1 + 2 * k\<close>, so no record is skipped, whether its fields are empty or not. The exporter
  returns the bytes of the encoder, or \<^verbatim>\<open>None\<close> with a message when the encoder raises.
\<close>

theorem word_document_blocks:
  assumes "\<forall>(q, a) \<in> set qas. xml_text q \<and> xml_text a"
  shows "\<exists>doc. word_document (record_sequence qas) = Inr doc \<and>
           length doc = 1 + 2 * length qas \<and>
           doc ! 0 = Heading 0 [Text (str ''Interview Questions and Answers'')] \<and>
           (\<forall>i<length qas.
              doc ! (1 + 2 * i) = Heading 1 (run_content (fst (qas ! i)) []) \<and>
              doc ! (2 + 2 * i) = Paragraph (run_content (snd (qas ! i)) []) \<and>
              block_text (doc ! (1 + 2 * i)) = cr_as_lf (fst (qas ! i)) \<and>
              block_text (doc ! (2 + 2 * i)) = cr_as_lf (snd (qas ! i))) \<and>
           export_to_word exn_text save_document (record_sequence qas) u =
             (case save_document doc of
                Inl e \<Rightarrow> (None, u @ [str ''Error exporting to Word: '' @ exn_text e])
              | Inr output \<Rightarrow> (Some output, u))"
proof -
  let ?bs = "concat (map (\<lambda>(q, a). [Heading 1 (run_content q []),
                                    Paragraph (run_content a [])]) qas)"
  define doc where "doc = Heading 0 [Text (str ''Interview Questions and Answers'')] # ?bs"
  have made: "word_document (record_sequence qas) = Inr doc"
    unfolding doc_def by (rule word_document_eq [OF assms])
  have len: "length doc = 1 + 2 * length qas"
    using length_blocks [of qas] by (simp add: doc_def)
  have first: "doc ! 0 = Heading 0 [Text (str ''Interview Questions and Answers'')]"
    by (simp add: doc_def)
  have pos: "doc ! (1 + 2 * i) = Heading 1 (run_content (fst (qas ! i)) []) \<and>
             doc ! (2 + 2 * i) = Paragraph (run_content (snd (qas ! i)) [])"
    if "i < length qas" for i
    using nth_blocks [OF that] by (simp add: doc_def)
  have all: "\<forall>i<length qas.
      doc ! (1 + 2 * i) = Heading 1 (run_content (fst (qas ! i)) []) \<and>
      doc ! (2 + 2 * i) = Paragraph (run_content (snd (qas ! i)) []) \<and>
      block_text (doc ! (1 + 2 * i)) = cr_as_lf (fst (qas ! i)) \<and>
      block_text (doc ! (2 + 2 * i)) = cr_as_lf (snd (qas ! i))"
  proof (intro allI impI)
    fix i assume "i < length qas"
    from pos [OF this] show
      "doc ! (1 + 2 * i) = Heading 1 (run_content (fst (qas ! i)) []) \<and>
       doc ! (2 + 2 * i) = Paragraph (run_content (snd (qas ! i)) []) \<and>
       block_text (doc ! (1 + 2 * i)) = cr_as_lf (fst (qas ! i)) \<and>
       block_text (doc ! (2 + 2 * i)) = cr_as_lf (snd (qas ! i))"
      using run_content_text [of _ "[]"] by simp
  qed
  note out = export_to_word_document [OF made, of exn_text save_document u]
  show ?thesis
    using made len first all out by (intro exI [of _ doc]) blast
qed

theorem word_document_blocks_witness:
  "xml_text (str ''Q1'') \<and> xml_text (str ''a'' @ [0x0D] @ str ''b'') \<and> xml_text [] \<and>
   1 < length [(str ''Q1'', str ''a'' @ [0x0D] @ str ''b''), ([], [])] \<and>
   (case word_document (record_sequence [(str ''Q1'', str ''a'' @ [0x0D] @ str ''b''), ([], [])]) of
      Inl e \<Rightarrow> False
    | Inr doc \<Rightarrow> length doc = 5 \<and> doc ! 1 = Heading 1 [Text (str ''Q1'')] \<and>
        doc ! 2 = Paragraph [Text (str ''a''), Break, Text (str ''b'')] \<and>
        block_text (doc ! 2) = str ''a'' @ [0x0A] @ str ''b'' \<and>
        doc ! 3 = Heading 1 [] \<and> doc ! 4 = Paragraph [])"
proof -
  let ?qas = "[(str ''Q1'', str ''a'' @ [0x0D] @ str ''b''), ([], [])]"
  have t: "xml_text (str ''Q1'')" "xml_text (str ''a'' @ [0x0D] @ str ''b'')" "xml_text []"
    by (simp_all add: xml_text_def str_def xml_char_def surrogate_def)
  then have h: "\<forall>(q, a) \<in> set ?qas. xml_text q \<and> xml_text a" by simp
  from word_document_blocks [OF h, of kind_text empty_save "[]"] obtain doc where
    d: "word_document (record_sequence ?qas) = Inr doc" and
    l: "length doc = 1 + 2 * length ?qas" and
    p: "\<forall>i<length ?qas.
          doc ! (1 + 2 * i) = Heading 1 (run_content (fst (?qas ! i)) []) \<and>
          doc ! (2 + 2 * i) = Paragraph (run_content (snd (?qas ! i)) []) \<and>
          block_text (doc ! (1 + 2 * i)) = cr_as_lf (fst (?qas ! i)) \<and>
          block_text (doc ! (2 + 2 * i)) = cr_as_lf (snd (?qas ! i))"
    by blast
  have i0: "0 < length ?qas" and i1: "1 < length ?qas" by simp_all
  have e: "(1::nat) + 2 * 0 = 1" "(2::nat) + 2 * 0 = 2" "(1::nat) + 2 * 1 = 3" "(2::nat) + 2 * 1 = 4"
    by simp_all
  have f: "fst (?qas ! 0) = str ''Q1''" "snd (?qas ! 0) = str ''a'' @ [0x0D] @ str ''b''"
    "fst (?qas ! 1) = []" "snd (?qas ! 1) = []"
    by simp_all
  have r: "run_content (str ''Q1'') [] = [Text (str ''Q1'')]"
    "run_content (str ''a'' @ [0x0D] @ str ''b'') [] = [Text (str ''a''), Break, Text (str ''b'')]"
    "run_content [] [] = []"
    "cr_as_lf (str ''a'' @ [0x0D] @ str ''b'') = str ''a'' @ [0x0A] @ str ''b''"
    by (simp_all add: str_def cr_as_lf_def)
  from p i0 have x0: "doc ! (1 + 2 * 0) = Heading 1 (run_content (fst (?qas ! 0)) []) \<and>
      doc ! (2 + 2 * 0) = Paragraph (run_content (snd (?qas ! 0)) []) \<and>
      block_text (doc ! (2 + 2 * 0)) = cr_as_lf (snd (?qas ! 0))" by blast
  from p i1 have x1: "doc ! (1 + 2 * 1) = Heading 1 (run_content (fst (?qas ! 1)) []) \<and>
      doc ! (2 + 2 * 1) = Paragraph (run_content (snd (?qas ! 1)) [])" by blast
  from x0 [unfolded e f r] x1 [unfolded e f r]
  have b: "doc ! 1 = Heading 1 [Text (str ''Q1'')]"
    "doc ! 2 = Paragraph [Text (str ''a''), Break, Text (str ''b'')]"
    "block_text (doc ! 2) = str ''a'' @ [0x0A] @ str ''b''"
    "doc ! 3 = Heading 1 []" "doc ! 4 = Paragraph []"
    by blast+
  from l have n: "length doc = 5" by simp
  show ?thesis unfolding d using t i1 b n by simp
qed

section \<open>Failures\<close>

subsection \<open>What the caller receives when a step raises\<close>

lemma one_record_texts:
  "\<forall>(q, a) \<in> set [(str ''Q'', str ''A'')]. worksheet_text q \<and> worksheet_text a"
  "\<forall>(q, a) \<in> set [(str ''Q'', str ''A'')]. xml_text q \<and> xml_text a"
  by (simp_all add: worksheet_text_def xml_text_def str_def illegal_character_def xml_char_def
      surrogate_def)

lemma one_record_sheet:
  "excel_sheet (record_sequence [(str ''Q'', str ''A'')]) =
     Inr \<lparr>title = str ''Interview Questions'',
          cells = [(0, 0, str ''Question''), (0, 1, str ''Answer''),
                   (1, 0, str ''Q''), (1, 1, str ''A'')]\<rparr>"
proof -
  have "take 32767 (str ''Q'') = str ''Q''" "take 32767 (str ''A'') = str ''A''"
    by (simp_all add: str_def)
  then show ?thesis
    using excel_sheet_records [OF _ _ one_record_texts(1)] by (simp add: column_cells_def)
qed

lemma one_record_document:
  "word_document (record_sequence [(str ''Q'', str ''A'')]) =
     Inr [Heading 0 [Text (str ''Interview Questions and Answers'')],
          Heading 1 [Text (str ''Q'')], Paragraph [Text (str ''A'')]]"
proof -
  have "run_content (str ''Q'') [] = [Text (str ''Q'')]"
    "run_content (str ''A'') [] = [Text (str ''A'')]"
    by (simp_all add: str_def)
  then show ?thesis
    using word_document_eq [OF one_record_texts(2)] by simp
qed

text \<open>
  C4, as stated: when serialization fails, the exporter returns a typed failure value that
  carries the target format and the cause. It returns \<^verbatim>\<open>None\<close>: the same value from either
  exporter and for any cause.
\<close>

theorem export_failure_counterexample:
  "fst (export_to_excel kind_text (failing_save (str ''disk full''))
          (record_sequence [(str ''Q'', str ''A'')]) []) = None \<and>
   fst (export_to_word kind_text (failing_save (str ''bad encoding''))
          (record_sequence [(str ''Q'', str ''A'')]) []) = None"
  unfolding export_to_excel_def excel_try_def export_to_word_def word_try_def
    one_record_sheet one_record_document
  by (simp add: failing_save_def)

text \<open>
  C4, amended: when a step in the \<^verbatim>\<open>try\<close> block of an exporter raises an exception, the
  exporter returns \<^verbatim>\<open>None\<close>, no artifact, and shows one message through
  \<^verbatim>\<open>st.error\<close>, which names the format and the cause:
  \<^verbatim>\<open>Error exporting to Excel:\<close> or \<^verbatim>\<open>Error exporting to Word:\<close> followed by the text
  of the exception. The exception goes no further than the exporter. The step may be the
  encoding of the finished sheet, the writing of the sheet (and then the exception shown is
  the one of the save that ends the \<^verbatim>\<open>with\<close> block, if that save raises too), the
  construction of the document, or the encoding of the document.
\<close>

theorem export_failure_reported:
  "(excel_try save_workbook data = Inl e \<longrightarrow>
      export_to_excel exn_text save_workbook data u =
        (None, u @ [str ''Error exporting to Excel: '' @ exn_text e])) \<and>
   (excel_sheet data = Inr sheet \<and> save_workbook [sheet] = Inl e \<longrightarrow>
      export_to_excel exn_text save_workbook data u =
        (None, u @ [str ''Error exporting to Excel: '' @ exn_text e])) \<and>
   (excel_sheet data = Inl (e, held) \<and> save_workbook held = Inr output \<longrightarrow>
      export_to_excel exn_text save_workbook data u =
        (None, u @ [str ''Error exporting to Excel: '' @ exn_text e])) \<and>
   (excel_sheet data = Inl (e', held) \<and> save_workbook held = Inl e \<longrightarrow>
      export_to_excel exn_text save_workbook data u =
        (None, u @ [str ''Error exporting to Excel: '' @ exn_text e])) \<and>
   (word_try save_document data = Inl e \<longrightarrow>
      export_to_word exn_text save_document data u =
        (None, u @ [str ''Error exporting to Word: '' @ exn_text e])) \<and>
   (word_document data = Inl e \<longrightarrow>
      export_to_word exn_text save_document data u =
        (None, u @ [str ''Error exporting to Word: '' @ exn_text e])) \<and>
   (word_document data = Inr doc \<and> save_document doc = Inl e \<longrightarrow>
      export_to_word exn_text save_document data u =
        (None, u @ [str ''Error exporting to Word: '' @ exn_text e]))"
  by (simp add: export_to_excel_def excel_try_def export_to_word_def word_try_def st_error_def)

theorem export_failure_reported_witness:
  "export_to_excel kind_text (failing_save (str ''disk full''))
     (record_sequence [(str ''Q'', str ''A'')]) [] =
     (None, [str ''Error exporting to Excel: disk full'']) \<and>
   export_to_excel kind_text empty_save (record_sequence [(str ''Q'' @ [0x01], str ''A'')]) [] =
     (None, [str ''Error exporting to Excel: IllegalCharacterError'']) \<and>
   export_to_excel kind_text (failing_save (str ''disk full''))
     (record_sequence [(str ''Q'' @ [0x01], str ''A'')]) [] =
     (None, [str ''Error exporting to Excel: disk full'']) \<and>
   export_to_word kind_text empty_save (record_sequence [(str ''Q'' @ [0x01], str ''A'')]) [] =
     (None, [str ''Error exporting to Word: ValueError'']) \<and>
   export_to_word kind_text (failing_save (str ''disk full''))
     (record_sequence [(str ''Q'', str ''A'')]) [] =
     (None, [str ''Error exporting to Word: disk full''])"
proof -
  let ?good = "record_sequence [(str ''Q'', str ''A'')]"
  let ?bad = "record_sequence [(str ''Q'' @ [0x01], str ''A'')]"
  let ?fail = "failing_save (str ''disk full'')"
  let ?cause = "EncoderError (str ''disk full'')"
  let ?sheet = "\<lparr>title = str ''Interview Questions'',
                 cells = [(0, 0, str ''Question''), (0, 1, str ''Answer''),
                          (1, 0, str ''Q''), (1, 1, str ''A'')]\<rparr>"
  let ?held = "[\<lparr>title = str ''Interview Questions'',
                 cells = [(0, 0, str ''Question''), (0, 1, str ''Answer'')]\<rparr>]"
  let ?doc = "[Heading 0 [Text (str ''Interview Questions and Answers'')],
               Heading 1 [Text (str ''Q'')], Paragraph [Text (str ''A'')]]"
  have m: "str ''Error exporting to Excel: '' @ kind_text ?cause =
             str ''Error exporting to Excel: disk full''"
    "str ''Error exporting to Word: '' @ kind_text ?cause =
             str ''Error exporting to Word: disk full''"
    "str ''Error exporting to Excel: '' @ kind_text (IllegalCharacterError (str ''Q'' @ [0x01])) =
             str ''Error exporting to Excel: IllegalCharacterError''"
    "str ''Error exporting to Word: '' @ kind_text (XMLValueError (str ''Q'' @ [0x01])) =
             str ''Error exporting to Word: ValueError''"
    by (simp_all add: str_def)
  have s1: "excel_sheet ?good = Inr ?sheet \<and> ?fail [?sheet] = Inl ?cause"
    by (simp add: one_record_sheet failing_save_def)
  have s2: "excel_sheet ?bad = Inl (IllegalCharacterError (str ''Q'' @ [0x01]), ?held) \<and>
            empty_save ?held = Inr []"
    using bad_record_sheet by (simp add: empty_save_def)
  have s3: "excel_sheet ?bad = Inl (IllegalCharacterError (str ''Q'' @ [0x01]), ?held) \<and>
            ?fail ?held = Inl ?cause"
    using bad_record_sheet by (simp add: failing_save_def)
  have s4: "word_document ?bad = Inl (XMLValueError (str ''Q'' @ [0x01]))"
    by (rule bad_record_document)
  have s5: "word_document ?good = Inr ?doc \<and> ?fail ?doc = Inl ?cause"
    by (simp add: one_record_document failing_save_def)
  from export_failure_reported
    [of ?fail ?good ?cause kind_text "[]" ?sheet _ _ _ empty_save _] s1
  have r1: "export_to_excel kind_text ?fail ?good [] =
      (None, [str ''Error exporting to Excel: disk full''])"
    unfolding m [symmetric] by simp
  from export_failure_reported
    [of empty_save ?bad "IllegalCharacterError (str ''Q'' @ [0x01])" kind_text "[]" _ ?held "[]"] s2
  have r2: "export_to_excel kind_text empty_save ?bad [] =
      (None, [str ''Error exporting to Excel: IllegalCharacterError''])"
    unfolding m [symmetric] by simp
  from export_failure_reported
    [of ?fail ?bad ?cause kind_text "[]" _ ?held _ "IllegalCharacterError (str ''Q'' @ [0x01])"] s3
  have r3: "export_to_excel kind_text ?fail ?bad [] =
      (None, [str ''Error exporting to Excel: disk full''])"
    unfolding m [symmetric] by simp
  from export_failure_reported
    [of empty_save ?bad "XMLValueError (str ''Q'' @ [0x01])" kind_text "[]" _ _ _ _ empty_save] s4
  have r4: "export_to_word kind_text empty_save ?bad [] =
      (None, [str ''Error exporting to Word: ValueError''])"
    unfolding m [symmetric] by simp
  from export_failure_reported
    [of empty_save ?good ?cause kind_text "[]" _ _ _ _ ?fail ?doc] s5
  have r5: "export_to_word kind_text ?fail ?good [] =
      (None, [str ''Error exporting to Word: disk full''])"
    unfolding m [symmetric] by simp
  from r1 r2 r3 r4 r5 show ?thesis by blast
qed

end
